theory Spec2Isabelle
  imports Complex_Main "HOL-Library.Stream"
begin

section \<open>Data model\<close>

text \<open>
  The race strategy simulator of \<^verbatim>\<open>backend/simulation/engine.py\<close> (class
  \<^verbatim>\<open>RaceSimulator\<close>) and the \<^verbatim>\<open>/simulate\<close> endpoint of
  \<^verbatim>\<open>backend/main.py\<close>.

  Python's unbounded integers (lap numbers, tire ages, positions) are \<open>int\<close>. Python's
  floats (times, gaps, probabilities) are modelled as exact \<open>real\<close> numbers: rounding of
  the binary floating-point operations is not part of the model. Tire compounds and weather
  conditions are strings, as in the source, and the lookup of an unknown compound in the
  compound table fails with \<open>KeyError\<close>.

  Two behaviours of Python are outside the model. The conversion of an integer to a float,
  made when the tire age is multiplied by the degradation rate, raises
  \<^verbatim>\<open>OverflowError\<close> for an integer of magnitude \<open>2^1024 - 2^970\<close> or more; the
  conversion of the model is total. A pit scenario is a dictionary of arbitrary values; the
  model gives its keys their intended types, and a dictionary with other values (a pit lap
  that is null or not an integer, a weather change without its lap) is not a value of the
  model: on such a dictionary the source raises \<^verbatim>\<open>TypeError\<close> or
  \<^verbatim>\<open>KeyError\<close>.
\<close>

datatype error = KeyError string | ValueError

text \<open>
  The source draws its randomness from the process-wide generator of Python's
  \<^verbatim>\<open>random\<close> module. The generator is modelled as an explicitly threaded stream of
  raw draws, one natural number per call:
  \<^item> \<^verbatim>\<open>random.random()\<close> returns a 53-bit integer divided by \<open>2^53\<close>, a value of \<open>[0, 1)\<close>;
  \<^item> \<^verbatim>\<open>random.uniform(a, b)\<close> returns \<^verbatim>\<open>a + (b - a) * random()\<close>;
  \<^item> \<^verbatim>\<open>random.randint(a, b)\<close> is \<^verbatim>\<open>randrange(a, b + 1)\<close>, which returns
    \<^verbatim>\<open>a + _randbelow(b + 1 - a)\<close> when the range is not empty and raises
    \<^verbatim>\<open>ValueError\<close> when it is.
  A probability distribution is not part of the model: a draw is any value of the range.
\<close>

type_synonym rng = "nat stream"

definition random_random :: "rng \<Rightarrow> real \<times> rng" where
  "random_random g = (real (shd g mod 9007199254740992) / 9007199254740992, stl g)"

definition random_uniform :: "real \<Rightarrow> real \<Rightarrow> rng \<Rightarrow> real \<times> rng" where
  "random_uniform a b g = (case random_random g of (u, g') \<Rightarrow> (a + (b - a) * u, g'))"

definition random_randint :: "int \<Rightarrow> int \<Rightarrow> rng \<Rightarrow> error + (int \<times> rng)" where
  "random_randint a b g =
     (if b + 1 - a > 0 then Inr (a + int (shd g mod nat (b + 1 - a)), stl g)
      else Inl ValueError)"

record compound_data =
  base_pace :: real
  deg_rate :: real
  optimal_window :: "int \<times> int"

definition tire_compounds :: "string \<rightharpoonup> compound_data" where
  "tire_compounds = map_of
     [(''soft'', \<lparr>base_pace = 0.0, deg_rate = 0.05, optimal_window = (1, 15)\<rparr>),
      (''medium'', \<lparr>base_pace = 0.5, deg_rate = 0.03, optimal_window = (10, 35)\<rparr>),
      (''hard'', \<lparr>base_pace = 1.0, deg_rate = 0.02, optimal_window = (25, 50)\<rparr>),
      (''intermediate'', \<lparr>base_pace = 3.0, deg_rate = 0.04, optimal_window = (1, 30)\<rparr>),
      (''wet'', \<lparr>base_pace = 6.0, deg_rate = 0.01, optimal_window = (1, 40)\<rparr>)]"

definition pit_stop_time :: real where
  "pit_stop_time = 22.0"

definition position_worth :: real where
  "position_worth = 1.5"

section \<open>Lap-time model\<close>

text \<open>The weather branch of \<^verbatim>\<open>_calculate_lap_time\<close> (the \<^verbatim>\<open>if/elif\<close> chain).\<close>

definition weather_effect :: "string \<Rightarrow> string \<Rightarrow> real" where
  "weather_effect compound weather =
     (if weather = ''wet'' \<and> compound \<notin> set [''intermediate'', ''wet''] then 5.0
      else if weather = ''mixed'' then
        (if compound \<in> set [''intermediate''] then 1.0
         else if compound \<in> set [''wet''] then 2.0
         else 3.0)
      else if weather = ''dry'' \<and> compound \<in> set [''intermediate'', ''wet''] then 4.0
      else 0)"

definition calculate_lap_time :: "string \<Rightarrow> int \<Rightarrow> string \<Rightarrow> rng \<Rightarrow> error + (real \<times> rng)" where
  "calculate_lap_time compound tire_age weather g =
     (let base_time = 90.0 in
      case tire_compounds compound of
        None \<Rightarrow> Inl (KeyError compound)
      | Some cd \<Rightarrow>
          let time = base_time + base_pace cd;
              time = time + of_int tire_age * deg_rate cd;
              time = time + weather_effect compound weather
          in case random_uniform (- 0.3) 0.3 g of
               (noise, g') \<Rightarrow> Inr (time + noise, g'))"

section \<open>Stint simulator\<close>

text \<open>
  The \<^verbatim>\<open>for lap in range(start_lap, end_lap + 1)\<close> loop of \<^verbatim>\<open>_simulate_stint\<close>,
  with its three loop variables \<^verbatim>\<open>total_time\<close>, \<^verbatim>\<open>lap_times\<close> and
  \<^verbatim>\<open>current_tire_age\<close>; an exception of the lap-time model leaves the loop.
\<close>

fun stint_loop ::
  "int list \<Rightarrow> string \<Rightarrow> string \<Rightarrow> real \<Rightarrow> real list \<Rightarrow> int \<Rightarrow> rng
     \<Rightarrow> error + ((real \<times> real list) \<times> rng)" where
  "stint_loop [] compound weather total_time lap_times current_tire_age g =
     Inr ((total_time, lap_times), g)"
| "stint_loop (lap_no # laps) compound weather total_time lap_times current_tire_age g =
     (case calculate_lap_time compound current_tire_age weather g of
        Inl e \<Rightarrow> Inl e
      | Inr (lap_time, g') \<Rightarrow>
          stint_loop laps compound weather (total_time + lap_time) (lap_times @ [lap_time])
            (current_tire_age + 1) g')"

definition simulate_stint ::
  "int \<Rightarrow> int \<Rightarrow> string \<Rightarrow> int \<Rightarrow> string \<Rightarrow> rng \<Rightarrow> error + ((real \<times> real list) \<times> rng)" where
  "simulate_stint start_lap end_lap compound start_tire_age weather g =
     stint_loop [start_lap..end_lap] compound weather 0.0 [] start_tire_age g"

section \<open>Scenario evaluator\<close>

text \<open>
  A pit scenario is a dictionary read with \<^verbatim>\<open>.get(key, default)\<close>: every key may be
  absent. The race parameters are the dictionary built by \<^verbatim>\<open>simulate_scenarios\<close>.
  A scenario result is a copy of the scenario with the computed keys added; the keys
  \<^verbatim>\<open>safety_car_appeared\<close>, \<^verbatim>\<open>safety_car_lap\<close> and \<^verbatim>\<open>final_position\<close> are absent
  until they are assigned.
\<close>

record weather_change_event =
  lap :: int
  condition :: string

record scenario =
  name :: "string option"
  pit_lap :: "int option"
  new_compound :: "string option"
  weather_change :: "weather_change_event option"
  safety_car_probability :: "real option"

record scenario_result = scenario +
  total_race_time :: real
  position_delta :: int
  lap_times :: "real list"
  safety_car_appeared :: "bool option"
  safety_car_lap :: "int option"
  final_position :: "int option"

record race_params =
  current_lap :: int
  total_laps :: int
  current_position :: int
  gap_ahead :: real
  gap_behind :: real
  current_tire_age :: int
  current_compound :: string
  weather_condition :: string

text \<open>\<^verbatim>\<open>scenario.get("pit_lap", current_lap)\<close> and the other defaulted reads.\<close>

definition get_pit_lap :: "'a scenario_scheme \<Rightarrow> race_params \<Rightarrow> int" where
  "get_pit_lap sc rp = (case pit_lap sc of None \<Rightarrow> current_lap rp | Some p \<Rightarrow> p)"

definition get_new_compound :: "scenario \<Rightarrow> string" where
  "get_new_compound sc = (case new_compound sc of None \<Rightarrow> ''medium'' | Some c \<Rightarrow> c)"

definition get_safety_car_probability :: "scenario \<Rightarrow> real" where
  "get_safety_car_probability sc =
     (case safety_car_probability sc of None \<Rightarrow> 0.0 | Some p \<Rightarrow> p)"

text \<open>The initialisation of \<^verbatim>\<open>result\<close>: a copy of the scenario with three new keys.\<close>

definition initial_result :: "scenario \<Rightarrow> scenario_result" where
  "initial_result sc =
     \<lparr>name = name sc, pit_lap = pit_lap sc, new_compound = new_compound sc,
      weather_change = weather_change sc, safety_car_probability = safety_car_probability sc,
      total_race_time = 0.0, position_delta = 0, lap_times = [],
      safety_car_appeared = None, safety_car_lap = None, final_position = None\<rparr>"

text \<open>
  The two stints of \<^verbatim>\<open>_evaluate_scenario\<close>: the first stint on the current tires when
  the pit lap is after the current lap, then the pit stop and the second stint on the new
  tires when the pit lap is within the race.
\<close>

definition run_stints :: "scenario \<Rightarrow> race_params \<Rightarrow> rng \<Rightarrow> error + (scenario_result \<times> rng)" where
  "run_stints sc rp g =
     (let pit = get_pit_lap sc rp;
          result = initial_result sc
      in case (if pit > current_lap rp then
                 (case simulate_stint (current_lap rp) (pit - 1) (current_compound rp)
                         (current_tire_age rp) (weather_condition rp) g of
                    Inl e \<Rightarrow> Inl e
                  | Inr ((first_stint_time, first_stint_lap_times), g1) \<Rightarrow>
                      Inr (result\<lparr>total_race_time := total_race_time result + first_stint_time,
                                  lap_times := lap_times result @ first_stint_lap_times\<rparr>, g1))
               else Inr (result, g)) of
           Inl e \<Rightarrow> Inl e
         | Inr (result, g1) \<Rightarrow>
             if pit \<le> total_laps rp then
               (let result = result\<lparr>total_race_time := total_race_time result + pit_stop_time\<rparr>;
                    second_stint_weather =
                      (case weather_change sc of
                         None \<Rightarrow> weather_condition rp
                       | Some wc \<Rightarrow> if lap wc \<ge> pit then condition wc else weather_condition rp)
                in case simulate_stint pit (total_laps rp) (get_new_compound sc) 0
                          second_stint_weather g1 of
                     Inl e \<Rightarrow> Inl e
                   | Inr ((second_stint_time, second_stint_lap_times), g2) \<Rightarrow>
                       Inr (result\<lparr>total_race_time := total_race_time result + second_stint_time,
                                   lap_times := lap_times result @ second_stint_lap_times\<rparr>, g2))
             else Inr (result, g1))"

text \<open>
  The guard \<^verbatim>\<open>safety_car_probability > 0 and random.random() < safety_car_probability\<close>:
  the draw is made only when the probability is positive.
\<close>

definition safety_car_draw :: "real \<Rightarrow> rng \<Rightarrow> bool \<times> rng" where
  "safety_car_draw prob g =
     (if prob > 0 then (case random_random g of (u, g') \<Rightarrow> (u < prob, g')) else (False, g))"

text \<open>The position estimate at the end of \<^verbatim>\<open>_evaluate_scenario\<close>.\<close>

definition estimate_position :: "race_params \<Rightarrow> scenario_result \<Rightarrow> scenario_result" where
  "estimate_position rp result =
     (let time_delta_ahead = total_race_time result - gap_ahead rp;
          time_delta_behind = gap_behind rp - total_race_time result;
          result = (if time_delta_ahead > 0
                    then result\<lparr>position_delta := position_delta result + 1\<rparr> else result);
          result = (if time_delta_behind < 0
                    then result\<lparr>position_delta := position_delta result - 1\<rparr> else result)
      in result\<lparr>final_position := Some (current_position rp - position_delta result)\<rparr>)"

function evaluate_scenario ::
  "scenario \<Rightarrow> race_params \<Rightarrow> rng \<Rightarrow> error + (scenario_result \<times> rng)" where
  "evaluate_scenario sc rp g =
     (case run_stints sc rp g of
        Inl e \<Rightarrow> Inl e
      | Inr (result, g1) \<Rightarrow>
          (case safety_car_draw (get_safety_car_probability sc) g1 of
             (True, g2) \<Rightarrow>
               (case random_randint (current_lap rp + 1) (total_laps rp) g2 of
                  Inl e \<Rightarrow> Inl e
                | Inr (sc_lap, g3) \<Rightarrow>
                    (let result = result\<lparr>safety_car_appeared := Some True,
                                         safety_car_lap := Some sc_lap\<rparr>
                     in if sc_lap < get_pit_lap sc rp then
                          (case evaluate_scenario (sc\<lparr>pit_lap := Some sc_lap\<rparr>) rp g3 of
                             Inl e \<Rightarrow> Inl e
                           | Inr (adjusted_result, g4) \<Rightarrow>
                               Inr (adjusted_result\<lparr>total_race_time :=
                                      total_race_time adjusted_result - 5.0\<rparr>, g4))
                        else Inr (estimate_position rp result, g3)))
           | (False, g2) \<Rightarrow>
               Inr (estimate_position rp (result\<lparr>safety_car_appeared := Some False\<rparr>), g2)))"
  by pat_completeness auto
termination
  apply (relation "measure (\<lambda>(sc, rp, g). nat (get_pit_lap sc rp - current_lap rp))")
   apply simp
  apply (auto simp: get_pit_lap_def random_randint_def split: if_splits)
  done

declare evaluate_scenario.simps [simp del]

text \<open>
  The safety-car laps to which the nested re-evaluations of one call of
  \<^verbatim>\<open>_evaluate_scenario\<close> are redirected, outermost first: the function follows the
  control flow of \<open>evaluate_scenario\<close> on the same randomness and records the forced pit
  lap of every recursive call. Its length is the depth of the recursion.
\<close>

function redirect_laps :: "scenario \<Rightarrow> race_params \<Rightarrow> rng \<Rightarrow> int list" where
  "redirect_laps sc rp g =
     (case run_stints sc rp g of
        Inl e \<Rightarrow> []
      | Inr (result, g1) \<Rightarrow>
          (case safety_car_draw (get_safety_car_probability sc) g1 of
             (True, g2) \<Rightarrow>
               (case random_randint (current_lap rp + 1) (total_laps rp) g2 of
                  Inl e \<Rightarrow> []
                | Inr (sc_lap, g3) \<Rightarrow>
                    if sc_lap < get_pit_lap sc rp
                    then sc_lap # redirect_laps (sc\<lparr>pit_lap := Some sc_lap\<rparr>) rp g3
                    else [])
           | (False, g2) \<Rightarrow> []))"
  by pat_completeness auto
termination
  apply (relation "measure (\<lambda>(sc, rp, g). nat (get_pit_lap sc rp - current_lap rp))")
   apply simp
  apply (auto simp: get_pit_lap_def random_randint_def split: if_splits)
  done

declare redirect_laps.simps [simp del]

section \<open>Scenario ranking\<close>

record simulation_request = race_params +
  pit_scenarios :: "scenario list"

record simulation_result =
  scenarios :: "scenario_result list"
  best_scenario :: scenario_result
  race_position_delta :: int
  time_delta :: real

text \<open>The default scenarios of \<^verbatim>\<open>simulate_scenarios\<close>, used when none is supplied.\<close>

definition default_scenarios :: "simulation_request \<Rightarrow> scenario list" where
  "default_scenarios kwargs =
     [\<lparr>name = Some ''Stay out'', pit_lap = Some (total_laps kwargs + 1), new_compound = None,
       weather_change = None, safety_car_probability = None\<rparr>,
      \<lparr>name = Some ''Pit now'', pit_lap = Some (current_lap kwargs), new_compound = Some ''hard'',
       weather_change = None, safety_car_probability = None\<rparr>,
      \<lparr>name = Some ''Pit in 3 laps'', pit_lap = Some (current_lap kwargs + 3), new_compound = Some ''hard'',
       weather_change = None, safety_car_probability = None\<rparr>,
      \<lparr>name = Some ''Pit in 5 laps'', pit_lap = Some (current_lap kwargs + 5), new_compound = Some ''hard'',
       weather_change = None, safety_car_probability = None\<rparr>]"

text \<open>
  The scenarios that the specification says are ranked: the supplied list, or, when and only
  when it is empty, the four documented defaults (stay out with the pit lap
  \<open>total_laps + 1\<close>; pit now, in 3 laps and in 5 laps, each on hard tires). This
  definition follows the specification; \<open>simulate_scenarios\<close> below follows the source.
\<close>

definition used_scenarios :: "simulation_request \<Rightarrow> scenario list" where
  "used_scenarios kwargs =
     (if pit_scenarios kwargs = []
      then [\<lparr>name = Some ''Stay out'', pit_lap = Some (total_laps kwargs + 1),
              new_compound = None, weather_change = None, safety_car_probability = None\<rparr>,
            \<lparr>name = Some ''Pit now'', pit_lap = Some (current_lap kwargs),
              new_compound = Some ''hard'', weather_change = None,
              safety_car_probability = None\<rparr>,
            \<lparr>name = Some ''Pit in 3 laps'', pit_lap = Some (current_lap kwargs + 3),
              new_compound = Some ''hard'', weather_change = None,
              safety_car_probability = None\<rparr>,
            \<lparr>name = Some ''Pit in 5 laps'', pit_lap = Some (current_lap kwargs + 5),
              new_compound = Some ''hard'', weather_change = None,
              safety_car_probability = None\<rparr>]
      else pit_scenarios kwargs)"

text \<open>The loop \<^verbatim>\<open>for scenario in pit_scenarios\<close> with its accumulator \<^verbatim>\<open>results\<close>.\<close>

fun evaluate_all ::
  "scenario list \<Rightarrow> race_params \<Rightarrow> scenario_result list \<Rightarrow> rng
     \<Rightarrow> error + (scenario_result list \<times> rng)" where
  "evaluate_all [] rp results g = Inr (results, g)"
| "evaluate_all (sc # scs) rp results g =
     (case evaluate_scenario sc rp g of
        Inl e \<Rightarrow> Inl e
      | Inr (result, g') \<Rightarrow> evaluate_all scs rp (results @ [result]) g')"

text \<open>
  Python's \<^verbatim>\<open>min(xs, key=f)\<close> and \<^verbatim>\<open>max(xs, key=f)\<close>: the first element with the
  least (greatest) key, \<^verbatim>\<open>ValueError\<close> on an empty list.
\<close>

definition py_min :: "('a \<Rightarrow> real) \<Rightarrow> 'a list \<Rightarrow> error + 'a" where
  "py_min key xs =
     (case xs of
        [] \<Rightarrow> Inl ValueError
      | x # rest \<Rightarrow> Inr (foldl (\<lambda>best y. if key y < key best then y else best) x rest))"

definition py_max :: "('a \<Rightarrow> real) \<Rightarrow> 'a list \<Rightarrow> error + 'a" where
  "py_max key xs =
     (case xs of
        [] \<Rightarrow> Inl ValueError
      | x # rest \<Rightarrow> Inr (foldl (\<lambda>best y. if key y > key best then y else best) x rest))"

definition simulate_scenarios :: "simulation_request \<Rightarrow> rng \<Rightarrow> error + (simulation_result \<times> rng)" where
  "simulate_scenarios kwargs g =
     (let rp = race_params.truncate kwargs;
          pit_scenarios = pit_scenarios kwargs;
          pit_scenarios =
            (if pit_scenarios = []
             then default_scenarios kwargs
             else pit_scenarios)
      in case evaluate_all pit_scenarios rp [] g of
           Inl e \<Rightarrow> Inl e
         | Inr (results, g') \<Rightarrow>
             (case py_min total_race_time results of
                Inl e \<Rightarrow> Inl e
              | Inr best \<Rightarrow>
                  (case py_max total_race_time results of
                     Inl e \<Rightarrow> Inl e
                   | Inr worst \<Rightarrow>
                       Inr (\<lparr>scenarios = results,
                             best_scenario = best,
                             race_position_delta = position_delta best,
                             time_delta = total_race_time worst - total_race_time best\<rparr>, g'))))"

section \<open>The simulation endpoint\<close>





text \<open>
  Whether a computation fails, with which exception, and which randomness it leaves: its
  outcome without the computed value.
\<close>

definition outcome :: "error + ('a \<times> rng) \<Rightarrow> error + rng" where
  "outcome res = (case res of Inl e \<Rightarrow> Inl e | Inr (v, g) \<Rightarrow> Inr g)"

section \<open>Example inputs\<close>

text \<open>
  A five-lap race seen from lap 1, on soft tires in dry weather, and a scenario that plans
  the stop for the last lap with a safety car certain to appear.
\<close>

definition short_race :: race_params where
  "short_race =
     \<lparr>current_lap = 1, total_laps = 5, current_position = 3, gap_ahead = 1.5,
      gap_behind = 2.0, current_tire_age = 0, current_compound = ''soft'',
      weather_condition = ''dry''\<rparr>"

definition late_stop :: scenario where
  "late_stop =
     \<lparr>name = Some ''Late stop'', pit_lap = Some 5, new_compound = Some ''hard'',
      weather_change = None, safety_car_probability = Some 1.0\<rparr>"

text \<open>
  A randomness source whose seventh draw sends the first safety car to lap 3; every other
  draw is 0, which sends the next safety car to lap 2.
\<close>

definition two_safety_cars :: rng where
  "two_safety_cars = [0, 0, 0, 0, 0, 0, 1] @- sconst 0"

text \<open>A request for the five-lap race that supplies no scenario.\<close>

definition default_request :: simulation_request where
  "default_request =
     \<lparr>current_lap = 1, total_laps = 5, current_position = 3, gap_ahead = 1.5,
      gap_behind = 2.0, current_tire_age = 0, current_compound = ''soft'',
      weather_condition = ''dry'', pit_scenarios = []\<rparr>"

text \<open>The same race on its last lap, and a stop on that lap.\<close>

definition last_lap_race :: race_params where
  "last_lap_race = short_race\<lparr>current_lap := 5\<rparr>"

definition last_lap_stop :: scenario where
  "last_lap_stop = late_stop\<lparr>name := Some ''Pit now''\<rparr>"



section \<open>The randomness source and the lap-time model\<close>



lemma tire_compounds_dom:
  "tire_compounds c \<noteq> None \<longleftrightarrow> c \<in> {''soft'', ''medium'', ''hard'', ''intermediate'', ''wet''}"
  by (simp add: tire_compounds_def)

lemma calculate_lap_time_rng:
  "calculate_lap_time c age w g = Inr (t, g') \<Longrightarrow> g' = stl g"
  by (auto simp: calculate_lap_time_def Let_def random_uniform_def random_random_def split: option.splits prod.splits)

lemma calculate_lap_time_known:
  "tire_compounds c \<noteq> None \<Longrightarrow> \<exists>t. calculate_lap_time c age w g = Inr (t, stl g)"
  by (auto simp: calculate_lap_time_def Let_def random_uniform_def random_random_def split: option.splits prod.splits)

lemma random_randint_range:
  "random_randint a b g = Inr (n, g') \<Longrightarrow> a \<le> n \<and> n \<le> b \<and> g' = stl g"
proof -
  assume h: "random_randint a b g = Inr (n, g')"
  then have pos: "b + 1 - a > 0"
    by (auto simp: random_randint_def split: if_splits)
  then have "shd g mod nat (b + 1 - a) < nat (b + 1 - a)"
    by simp
  then have "int (shd g mod nat (b + 1 - a)) < b + 1 - a"
    using pos by linarith
  with h pos show ?thesis
    by (auto simp: random_randint_def)
qed



section \<open>The stint simulator\<close>

lemma stint_loop_result:
  "stint_loop laps c w t ls age g = Inr ((t', ls'), g') \<Longrightarrow>
     \<exists>new. ls' = ls @ new \<and> t' = t + sum_list new \<and> length new = length laps
        \<and> g' = sdrop (length laps) g
        \<and> (\<forall>k < length laps.
              calculate_lap_time c (age + int k) w (sdrop k g) = Inr (new ! k, sdrop (Suc k) g))"
proof (induction laps arbitrary: t ls age g)
  case Nil
  then show ?case by simp
next
  case (Cons l laps)
  from Cons.prems obtain lt g1 where
    first: "calculate_lap_time c age w g = Inr (lt, g1)" and
    rest: "stint_loop laps c w (t + lt) (ls @ [lt]) (age + 1) g1 = Inr ((t', ls'), g')"
    by (auto split: sum.splits)
  from calculate_lap_time_rng [OF first] have g1: "g1 = stl g" .
  from Cons.IH [OF rest] obtain new where
    new: "ls' = (ls @ [lt]) @ new" "t' = (t + lt) + sum_list new" "length new = length laps"
      "g' = sdrop (length laps) g1"
    and each: "\<forall>k < length laps.
        calculate_lap_time c (age + 1 + int k) w (sdrop k g1) = Inr (new ! k, sdrop (Suc k) g1)"
    by blast
  have "\<forall>k < length (l # laps).
      calculate_lap_time c (age + int k) w (sdrop k g) = Inr ((lt # new) ! k, sdrop (Suc k) g)"
  proof (intro allI impI)
    fix k assume k: "k < length (l # laps)"
    show "calculate_lap_time c (age + int k) w (sdrop k g) = Inr ((lt # new) ! k, sdrop (Suc k) g)"
    proof (cases k)
      case 0
      with first g1 show ?thesis by simp
    next
      case (Suc j)
      with k have "j < length laps" by simp
      with each have "calculate_lap_time c (age + 1 + int j) w (sdrop j g1) = Inr (new ! j, sdrop (Suc j) g1)"
        by blast
      with Suc g1 show ?thesis by (simp add: add.commute add.left_commute)
    qed
  qed
  with new g1 show ?case
    by (intro exI [of _ "lt # new"]) simp
qed

lemma stint_loop_known:
  "tire_compounds c \<noteq> None \<Longrightarrow> \<exists>r. stint_loop laps c w t ls age g = Inr r"
proof (induction laps arbitrary: t ls age g)
  case Nil
  then show ?case by simp
next
  case (Cons l laps)
  from calculate_lap_time_known [OF Cons.prems] obtain lt
    where "calculate_lap_time c age w g = Inr (lt, stl g)" by blast
  with Cons.IH [OF Cons.prems] show ?case by simp
qed

text \<open>
  Claim C3. A stint that returns has one lap time per lap number of
  \<open>[start_lap..end_lap]\<close>, its total time is the sum of its lap times, and its \<open>k\<close>-th lap
  time (from 0) is the lap-time model at tire age \<open>start_tire_age + k\<close>, on the
  \<open>k\<close>-th draw of the stint. On each of the five compounds the stint returns. When
  \<open>start_lap > end_lap\<close> the result is the total 0 and the empty list, with no draw made.
\<close>

theorem stint_one_time_per_lap:
  "(\<forall>total_time lap_times g'.
      simulate_stint start_lap end_lap compound start_tire_age weather g
        = Inr ((total_time, lap_times), g') \<longrightarrow>
      length lap_times = length [start_lap..end_lap]
      \<and> length lap_times = nat (end_lap - start_lap + 1)
      \<and> total_time = sum_list lap_times
      \<and> g' = sdrop (length lap_times) g
      \<and> (\<forall>k < length lap_times.
            calculate_lap_time compound (start_tire_age + int k) weather (sdrop k g)
              = Inr (lap_times ! k, sdrop (Suc k) g)))
   \<and> (compound \<in> {''soft'', ''medium'', ''hard'', ''intermediate'', ''wet''} \<longrightarrow>
       (\<exists>r. simulate_stint start_lap end_lap compound start_tire_age weather g = Inr r))
   \<and> (start_lap > end_lap \<longrightarrow>
       simulate_stint start_lap end_lap compound start_tire_age weather g = Inr ((0, []), g))"
proof (intro conjI allI impI)
  fix total_time lap_times g'
  assume run: "simulate_stint start_lap end_lap compound start_tire_age weather g
        = Inr ((total_time, lap_times), g')"
  then have "stint_loop [start_lap..end_lap] compound weather 0 [] start_tire_age g
        = Inr ((total_time, lap_times), g')"
    by (simp add: simulate_stint_def)
  from stint_loop_result [OF this] obtain new where
    new: "lap_times = [] @ new" "total_time = 0 + sum_list new"
      "length new = length [start_lap..end_lap]" "g' = sdrop (length [start_lap..end_lap]) g"
    and each: "\<forall>k < length [start_lap..end_lap].
        calculate_lap_time compound (start_tire_age + int k) weather (sdrop k g)
          = Inr (new ! k, sdrop (Suc k) g)"
    by blast
  from new show "length lap_times = length [start_lap..end_lap]" by simp
  from new show "length lap_times = nat (end_lap - start_lap + 1)" by simp
  from new show "total_time = sum_list lap_times" by simp
  from new show "g' = sdrop (length lap_times) g" by simp
  fix k assume "k < length lap_times"
  with new each
  show "calculate_lap_time compound (start_tire_age + int k) weather (sdrop k g)
              = Inr (lap_times ! k, sdrop (Suc k) g)"
    by simp
next
  assume "compound \<in> {''soft'', ''medium'', ''hard'', ''intermediate'', ''wet''}"
  then have "tire_compounds compound \<noteq> None"
    by (simp only: tire_compounds_dom)
  from stint_loop_known [OF this]
  show "\<exists>r. simulate_stint start_lap end_lap compound start_tire_age weather g = Inr r"
    by (simp add: simulate_stint_def)
next
  assume "start_lap > end_lap"
  then show "simulate_stint start_lap end_lap compound start_tire_age weather g = Inr ((0, []), g)"
    by (simp add: simulate_stint_def)
qed

lemma simulate_stint_20_22:
  "simulate_stint 20 22 ''hard'' 0 ''dry'' (sconst 0)
     = Inr ((272.16, [90.7, 90.72, 90.74]), sconst 0)"
  by (simp add: simulate_stint_def calculate_lap_time_def tire_compounds_def weather_effect_def
      random_uniform_def random_random_def)

theorem stint_one_time_per_lap_witness:
  "simulate_stint 20 22 ''hard'' 0 ''dry'' (sconst 0) = Inr ((272.16, [90.7, 90.72, 90.74]), sconst 0)
   \<and> length [90.7, 90.72, 90.74 :: real] = nat (22 - 20 + 1)
   \<and> (272.16 :: real) = sum_list [90.7, 90.72, 90.74]
   \<and> calculate_lap_time ''hard'' (0 + int 2) ''dry'' (sdrop 2 (sconst 0)) = Inr (90.74, sdrop 3 (sconst 0))
   \<and> ''hard'' \<in> {''soft'', ''medium'', ''hard'', ''intermediate'', ''wet''}
   \<and> (21 :: int) > 20
   \<and> simulate_stint 21 20 ''hard'' 0 ''dry'' (sconst 0) = Inr ((0, []), sconst 0)"
proof -
  note thm1 = stint_one_time_per_lap [of 20 22 "''hard''" 0 "''dry''" "sconst 0"]
  note thm2 = stint_one_time_per_lap [of 21 20 "''hard''" 0 "''dry''" "sconst 0"]
  from thm1 simulate_stint_20_22
  have props: "length [90.7, 90.72, 90.74 :: real] = nat (22 - 20 + 1)
     \<and> (272.16 :: real) = sum_list [90.7, 90.72, 90.74]"
    and each: "\<forall>k < length [90.7, 90.72, 90.74 :: real].
            calculate_lap_time ''hard'' (0 + int k) ''dry'' (sdrop k (sconst 0))
              = Inr ([90.7, 90.72, 90.74] ! k, sdrop (Suc k) (sconst 0))"
    by blast+
  from each have "2 < length [90.7, 90.72, 90.74 :: real] \<longrightarrow>
      calculate_lap_time ''hard'' (0 + int 2) ''dry'' (sdrop 2 (sconst 0))
        = Inr ([90.7, 90.72, 90.74] ! 2, sdrop (Suc 2) (sconst 0))"
    by (rule spec)
  then have third: "calculate_lap_time ''hard'' (0 + int 2) ''dry'' (sdrop 2 (sconst 0))
        = Inr (90.74, sdrop 3 (sconst 0))"
    by simp
  from thm2 have "simulate_stint 21 20 ''hard'' 0 ''dry'' (sconst 0) = Inr ((0, []), sconst 0)"
    by simp
  with props third show ?thesis
    using simulate_stint_20_22 by simp
qed

section \<open>The scenario evaluator\<close>

lemma simulate_stint_sum:
  "simulate_stint a b c age w g = Inr ((t, ls), g') \<Longrightarrow> t = sum_list ls"
  using stint_loop_result [of "[a..b]" c w 0 "[]" age g t ls g']
  by (auto simp: simulate_stint_def)

lemma simulate_stint_known:
  "tire_compounds c \<noteq> None \<Longrightarrow> \<exists>t ls g'. simulate_stint a b c age w g = Inr ((t, ls), g')"
  using stint_loop_known [of c "[a..b]" w 0 "[]" age g]
  by (auto simp: simulate_stint_def)

lemma run_stints_result:
  assumes run: "run_stints sc rp g = Inr (r, g2)"
  shows "total_race_time r = sum_list (lap_times r)
           + (if get_pit_lap sc rp \<le> total_laps rp then pit_stop_time else 0)
       \<and> position_delta r = 0 \<and> pit_lap r = pit_lap sc
       \<and> safety_car_appeared r = None \<and> safety_car_lap r = None \<and> final_position r = None"
proof -
  let ?pit = "get_pit_lap sc rp"
  define first where "first =
    (if ?pit > current_lap rp then
       (case simulate_stint (current_lap rp) (?pit - 1) (current_compound rp)
               (current_tire_age rp) (weather_condition rp) g of
          Inl e \<Rightarrow> Inl e
        | Inr ((first_stint_time, first_stint_lap_times), g1) \<Rightarrow>
            Inr ((initial_result sc)\<lparr>total_race_time :=
                        total_race_time (initial_result sc) + first_stint_time,
                     lap_times := lap_times (initial_result sc) @ first_stint_lap_times\<rparr>, g1))
     else Inr (initial_result sc, g))"
  from run obtain r1 g1 where first: "first = Inr (r1, g1)"
    by (cases first) (auto simp: run_stints_def Let_def first_def)
  have r1: "total_race_time r1 = sum_list (lap_times r1) \<and> position_delta r1 = 0
      \<and> pit_lap r1 = pit_lap sc
      \<and> safety_car_appeared r1 = None \<and> safety_car_lap r1 = None \<and> final_position r1 = None"
  proof (cases "?pit > current_lap rp")
    case True
    with first obtain t ls where
      "simulate_stint (current_lap rp) (?pit - 1) (current_compound rp)
               (current_tire_age rp) (weather_condition rp) g = Inr ((t, ls), g1)"
      "r1 = (initial_result sc)\<lparr>total_race_time := total_race_time (initial_result sc) + t,
                     lap_times := lap_times (initial_result sc) @ ls\<rparr>"
      by (auto simp: first_def split: sum.splits)
    with simulate_stint_sum [OF this(1)] show ?thesis
      by (simp add: initial_result_def)
  next
    case False
    with first show ?thesis
      by (auto simp: first_def initial_result_def)
  qed
  from run first have second:
    "(if ?pit \<le> total_laps rp then
        (let result = r1\<lparr>total_race_time := total_race_time r1 + pit_stop_time\<rparr>;
             second_stint_weather =
               (case weather_change sc of
                  None \<Rightarrow> weather_condition rp
                | Some wc \<Rightarrow> if lap wc \<ge> ?pit then condition wc else weather_condition rp)
         in case simulate_stint ?pit (total_laps rp) (get_new_compound sc) 0
                   second_stint_weather g1 of
              Inl e \<Rightarrow> Inl e
            | Inr ((second_stint_time, second_stint_lap_times), g2) \<Rightarrow>
                Inr (result\<lparr>total_race_time := total_race_time result + second_stint_time,
                            lap_times := lap_times result @ second_stint_lap_times\<rparr>, g2))
      else Inr (r1, g1)) = Inr (r, g2)"
    by (simp add: run_stints_def Let_def first_def [symmetric])
  show ?thesis
  proof (cases "?pit \<le> total_laps rp")
    case True
    with second obtain w t ls where
      "simulate_stint ?pit (total_laps rp) (get_new_compound sc) 0 w g1 = Inr ((t, ls), g2)"
      "r = r1\<lparr>total_race_time := total_race_time r1 + pit_stop_time + t,
              lap_times := lap_times r1 @ ls\<rparr>"
      by (auto simp: Let_def split: sum.splits)
    with simulate_stint_sum [OF this(1)] r1 True show ?thesis
      by simp
  next
    case False
    with second r1 show ?thesis by simp
  qed
qed

lemma run_stints_known:
  assumes cur: "get_pit_lap sc rp > current_lap rp \<longrightarrow> tire_compounds (current_compound rp) \<noteq> None"
    and new: "get_pit_lap sc rp \<le> total_laps rp \<longrightarrow> tire_compounds (get_new_compound sc) \<noteq> None"
  shows "\<exists>r g2. run_stints sc rp g = Inr (r, g2)"
proof -
  let ?pit = "get_pit_lap sc rp"
  define first where "first =
    (if ?pit > current_lap rp then
       (case simulate_stint (current_lap rp) (?pit - 1) (current_compound rp)
               (current_tire_age rp) (weather_condition rp) g of
          Inl e \<Rightarrow> Inl e
        | Inr ((first_stint_time, first_stint_lap_times), g1) \<Rightarrow>
            Inr ((initial_result sc)\<lparr>total_race_time :=
                        total_race_time (initial_result sc) + first_stint_time,
                     lap_times := lap_times (initial_result sc) @ first_stint_lap_times\<rparr>, g1))
     else Inr (initial_result sc, g))"
  have "\<exists>r1 g1. first = Inr (r1, g1)"
  proof (cases "?pit > current_lap rp")
    case True
    with cur have "tire_compounds (current_compound rp) \<noteq> None" by simp
    from simulate_stint_known [OF this] obtain t ls g1 where
      "simulate_stint (current_lap rp) (?pit - 1) (current_compound rp)
               (current_tire_age rp) (weather_condition rp) g = Inr ((t, ls), g1)"
      by blast
    with True show ?thesis by (simp add: first_def)
  next
    case False
    then show ?thesis by (simp add: first_def)
  qed
  then obtain r1 g1 where first: "first = Inr (r1, g1)" by blast
  show ?thesis
  proof (cases "?pit \<le> total_laps rp")
    case True
    define w where "w = (case weather_change sc of
                  None \<Rightarrow> weather_condition rp
                | Some wc \<Rightarrow> if lap wc \<ge> ?pit then condition wc else weather_condition rp)"
    from True new have "tire_compounds (get_new_compound sc) \<noteq> None" by simp
    from simulate_stint_known [OF this] obtain t ls g2 where
      "simulate_stint ?pit (total_laps rp) (get_new_compound sc) 0 w g1 = Inr ((t, ls), g2)"
      by blast
    with True first show ?thesis
      by (simp add: run_stints_def Let_def first_def [symmetric] w_def [symmetric])
  next
    case False
    with first show ?thesis
      by (simp add: run_stints_def Let_def first_def [symmetric])
  qed
qed

lemma safety_car_draw_rng:
  "safety_car_draw p g = (b, g') \<Longrightarrow>
     b = (p > 0 \<and> fst (random_random g) < p) \<and> g' = (if p > 0 then stl g else g)"
  by (auto simp: safety_car_draw_def random_random_def split: if_splits)

lemma estimate_position_fields:
  "total_race_time (estimate_position rp r) = total_race_time r"
  "lap_times (estimate_position rp r) = lap_times r"
  "pit_lap (estimate_position rp r) = pit_lap r"
  "safety_car_appeared (estimate_position rp r) = safety_car_appeared r"
  "safety_car_lap (estimate_position rp r) = safety_car_lap r"
  by (simp_all add: estimate_position_def Let_def)

lemma estimate_position_delta:
  "position_delta (estimate_position rp r) =
     position_delta r + (if total_race_time r - gap_ahead rp > 0 then 1 else 0)
                      - (if gap_behind rp - total_race_time r < 0 then 1 else 0)"
  "final_position (estimate_position rp r) =
     Some (current_position rp - position_delta (estimate_position rp r))"
  by (simp_all add: estimate_position_def Let_def)

text \<open>The three ways in which a call of \<open>evaluate_scenario\<close> returns a result.\<close>

lemma evaluate_scenario_returns:
  assumes "evaluate_scenario sc rp g = Inr (r, g')"
  obtains (no_safety_car) result g1 where
      "run_stints sc rp g = Inr (result, g1)"
      "safety_car_draw (get_safety_car_probability sc) g1 = (False, g')"
      "r = estimate_position rp (result\<lparr>safety_car_appeared := Some False\<rparr>)"
      "redirect_laps sc rp g = []"
  | (safety_car_later) result g1 g2 sc_lap where
      "run_stints sc rp g = Inr (result, g1)"
      "safety_car_draw (get_safety_car_probability sc) g1 = (True, g2)"
      "random_randint (current_lap rp + 1) (total_laps rp) g2 = Inr (sc_lap, g')"
      "\<not> sc_lap < get_pit_lap sc rp"
      "r = estimate_position rp
             (result\<lparr>safety_car_appeared := Some True, safety_car_lap := Some sc_lap\<rparr>)"
      "redirect_laps sc rp g = []"
  | (redirected) result g1 g2 sc_lap g3 adjusted_result where
      "run_stints sc rp g = Inr (result, g1)"
      "safety_car_draw (get_safety_car_probability sc) g1 = (True, g2)"
      "random_randint (current_lap rp + 1) (total_laps rp) g2 = Inr (sc_lap, g3)"
      "sc_lap < get_pit_lap sc rp"
      "evaluate_scenario (sc\<lparr>pit_lap := Some sc_lap\<rparr>) rp g3 = Inr (adjusted_result, g')"
      "r = adjusted_result\<lparr>total_race_time := total_race_time adjusted_result - 5.0\<rparr>"
      "redirect_laps sc rp g = sc_lap # redirect_laps (sc\<lparr>pit_lap := Some sc_lap\<rparr>) rp g3"
proof -
  from assms obtain result g1 where
    stints: "run_stints sc rp g = Inr (result, g1)"
    by (subst (asm) evaluate_scenario.simps) (auto split: sum.splits)
  obtain fires g2 where
    draw: "safety_car_draw (get_safety_car_probability sc) g1 = (fires, g2)"
    by (cases "safety_car_draw (get_safety_car_probability sc) g1")
  show thesis
  proof (cases fires)
    case False
    with assms stints draw
    have "r = estimate_position rp (result\<lparr>safety_car_appeared := Some False\<rparr>)" "g' = g2"
      by (simp_all add: evaluate_scenario.simps [of sc rp g])
    moreover from stints draw False have "redirect_laps sc rp g = []"
      by (simp add: redirect_laps.simps [of sc rp g])
    ultimately show thesis
      using stints draw False by (intro no_safety_car) simp_all
  next
    case True
    with assms stints draw obtain sc_lap g3 where
      lap: "random_randint (current_lap rp + 1) (total_laps rp) g2 = Inr (sc_lap, g3)"
      by (auto simp: evaluate_scenario.simps [of sc rp g] split: sum.splits)
    show thesis
    proof (cases "sc_lap < get_pit_lap sc rp")
      case earlier: True
      with assms stints draw True lap obtain adjusted_result where
        "evaluate_scenario (sc\<lparr>pit_lap := Some sc_lap\<rparr>) rp g3 = Inr (adjusted_result, g')"
        "r = adjusted_result\<lparr>total_race_time := total_race_time adjusted_result - 5.0\<rparr>"
        by (auto simp: evaluate_scenario.simps [of sc rp g] split: sum.splits)
      moreover from stints draw True lap earlier
      have "redirect_laps sc rp g = sc_lap # redirect_laps (sc\<lparr>pit_lap := Some sc_lap\<rparr>) rp g3"
        by (simp add: redirect_laps.simps [of sc rp g])
      ultimately show thesis
        using stints draw True lap earlier by (intro redirected) simp_all
    next
      case later: False
      with assms stints draw True lap
      have "r = estimate_position rp
             (result\<lparr>safety_car_appeared := Some True, safety_car_lap := Some sc_lap\<rparr>)"
        "g' = g3"
        by (simp_all add: evaluate_scenario.simps [of sc rp g])
      moreover from stints draw True lap later have "redirect_laps sc rp g = []"
        by (simp add: redirect_laps.simps [of sc rp g])
      ultimately show thesis
        using stints draw True lap later by (intro safety_car_later) simp_all
    qed
  qed
qed

text \<open>Induction along the recursive calls of \<open>evaluate_scenario\<close>.\<close>

lemma redirect_induct [case_names call]:
  assumes step: "\<And>sc rp g.
    (\<And>result g1 g2 sc_lap g3.
        run_stints sc rp g = Inr (result, g1) \<Longrightarrow>
        safety_car_draw (get_safety_car_probability sc) g1 = (True, g2) \<Longrightarrow>
        random_randint (current_lap rp + 1) (total_laps rp) g2 = Inr (sc_lap, g3) \<Longrightarrow>
        sc_lap < get_pit_lap sc rp \<Longrightarrow>
        P (sc\<lparr>pit_lap := Some sc_lap\<rparr>) rp g3) \<Longrightarrow>
    P sc rp g"
  shows "P sc rp g"
proof (induction sc rp g rule: evaluate_scenario.induct)
  case (1 sc rp g)
  show ?case
  proof (rule step)
    fix result g1 g2 sc_lap g3
    assume stints: "run_stints sc rp g = Inr (result, g1)"
      and draw: "safety_car_draw (get_safety_car_probability sc) g1 = (True, g2)"
      and lap: "random_randint (current_lap rp + 1) (total_laps rp) g2 = Inr (sc_lap, g3)"
      and earlier: "sc_lap < get_pit_lap sc rp"
    show "P (sc\<lparr>pit_lap := Some sc_lap\<rparr>) rp g3"
      by (rule "1.IH" [OF stints refl draw [symmetric] refl lap refl refl earlier])
  qed
qed

text \<open>
  The total race time in the exact arithmetic of the model: the total race time of every
  result of a scenario evaluation is the sum of the entries of its lap-time list, plus the
  pit-stop time 22.0 when the pit lap of the result is at most the total number of laps,
  minus 5.0 for each re-evaluation that led to the result. The source makes these additions
  on doubles, in the order first stint, pit stop, second stint, while the sum of the lap-time
  list adds the laps of both stints in one pass: for the values of the source the two sides
  agree up to rounding only, and the identity below is not a statement about them.
\<close>

lemma total_race_time_exact:
  "evaluate_scenario sc rp g = Inr (r, g') \<Longrightarrow>
     total_race_time r =
       sum_list (lap_times r)
       + (if get_pit_lap r rp \<le> total_laps rp then pit_stop_time else 0)
       - 5.0 * real (length (redirect_laps sc rp g))"
proof (induction sc rp g arbitrary: r g' rule: redirect_induct)
  case (call sc rp g)
  from call.prems show ?case
  proof (cases rule: evaluate_scenario_returns)
    case (no_safety_car result g1)
    from run_stints_result [OF no_safety_car(1)] no_safety_car(3,4)
    show ?thesis
      by (simp add: estimate_position_fields get_pit_lap_def)
  next
    case (safety_car_later result g1 g2 sc_lap)
    from run_stints_result [OF safety_car_later(1)] safety_car_later(5,6)
    show ?thesis
      by (simp add: estimate_position_fields get_pit_lap_def)
  next
    case (redirected result g1 g2 sc_lap g3 adjusted_result)
    from call.IH [OF redirected(1-5)]
    have "total_race_time adjusted_result =
       sum_list (lap_times adjusted_result)
       + (if get_pit_lap adjusted_result rp \<le> total_laps rp then pit_stop_time else 0)
       - 5.0 * real (length (redirect_laps (sc\<lparr>pit_lap := Some sc_lap\<rparr>) rp g3))" .
    with redirected(6,7) show ?thesis
      by (simp add: get_pit_lap_def)
  qed
qed

section \<open>Evaluation of the examples\<close>

lemmas example_defs =
  run_stints_def simulate_stint_def calculate_lap_time_def tire_compounds_def
  weather_effect_def random_uniform_def random_random_def random_randint_def
  safety_car_draw_def get_pit_lap_def get_new_compound_def get_safety_car_probability_def
  initial_result_def estimate_position_def pit_stop_time_def Let_def upto.simps

lemma late_stop_evaluated:
  "evaluate_scenario late_stop short_race two_safety_cars =
     Inr (\<lparr>name = Some ''Late stop'', pit_lap = Some 2, new_compound = Some ''hard'',
            weather_change = None, safety_car_probability = Some 1,
            total_race_time = 464.62, position_delta = 0,
            lap_times = [89.7, 90.7, 90.72, 90.74, 90.76],
            safety_car_appeared = Some True, safety_car_lap = Some 2,
            final_position = Some 3\<rparr>, sconst 0)"
  by (simp add: example_defs evaluate_scenario.simps short_race_def late_stop_def
      two_safety_cars_def)

lemma late_stop_redirects:
  "redirect_laps late_stop short_race two_safety_cars = [3, 2]"
  by (simp add: example_defs redirect_laps.simps short_race_def late_stop_def
      two_safety_cars_def)

lemma late_stop_calm:
  "evaluate_scenario (late_stop\<lparr>safety_car_probability := None\<rparr>) short_race (sconst 0) =
     Inr (\<lparr>name = Some ''Late stop'', pit_lap = Some 5, new_compound = Some ''hard'',
            weather_change = None, safety_car_probability = None,
            total_race_time = 471.8, position_delta = 0,
            lap_times = [89.7, 89.75, 89.8, 89.85, 90.7],
            safety_car_appeared = Some False, safety_car_lap = None,
            final_position = Some 3\<rparr>, sconst 0)"
  by (simp add: example_defs evaluate_scenario.simps short_race_def late_stop_def)

lemma late_stop_calm_redirects:
  "redirect_laps (late_stop\<lparr>safety_car_probability := None\<rparr>) short_race (sconst 0) = []"
  by (simp add: example_defs redirect_laps.simps short_race_def late_stop_def)

section \<open>The position estimate\<close>

text \<open>
  Claim C5. When a scenario evaluation returns without a redirect to a safety-car lap, the
  position delta of the result is 1 if its total race time minus the gap ahead is positive,
  plus \<open>-1\<close> if the gap behind minus its total race time is negative, the two tests being
  made independently on the gaps of the race state; and the final position is the current
  position minus the position delta.
\<close>

theorem position_delta_rule:
  assumes "evaluate_scenario sc rp g = Inr (r, g')"
    and "redirect_laps sc rp g = []"
  shows "position_delta r =
           (if total_race_time r - gap_ahead rp > 0 then 1 else 0)
           + (if gap_behind rp - total_race_time r < 0 then - 1 else 0)
       \<and> final_position r = Some (current_position rp - position_delta r)"
  using assms(1)
proof (cases rule: evaluate_scenario_returns)
  case (no_safety_car result g1)
  from run_stints_result [OF no_safety_car(1)] no_safety_car(3) show ?thesis
    by (simp add: estimate_position_delta estimate_position_fields)
next
  case (safety_car_later result g1 g2 sc_lap)
  from run_stints_result [OF safety_car_later(1)] safety_car_later(5) show ?thesis
    by (simp add: estimate_position_delta estimate_position_fields)
next
  case (redirected result g1 g2 sc_lap g3 adjusted_result)
  with assms(2) show ?thesis by simp
qed

theorem position_delta_rule_witness:
  "evaluate_scenario (late_stop\<lparr>safety_car_probability := None\<rparr>) short_race (sconst 0) =
     Inr (\<lparr>name = Some ''Late stop'', pit_lap = Some 5, new_compound = Some ''hard'',
            weather_change = None, safety_car_probability = None,
            total_race_time = 471.8, position_delta = 0,
            lap_times = [89.7, 89.75, 89.8, 89.85, 90.7],
            safety_car_appeared = Some False, safety_car_lap = None,
            final_position = Some 3\<rparr>, sconst 0)
   \<and> redirect_laps (late_stop\<lparr>safety_car_probability := None\<rparr>) short_race (sconst 0) = []
   \<and> (0 :: int) = (if (471.8 :: real) - 1.5 > 0 then 1 else 0)
                   + (if (2.0 :: real) - 471.8 < 0 then - 1 else 0)
   \<and> Some (3 :: int) = Some (3 - 0)"
  using position_delta_rule [OF late_stop_calm late_stop_calm_redirects]
    late_stop_calm late_stop_calm_redirects
  by (simp add: short_race_def)

section \<open>The safety-car step\<close>








section \<open>Depth of the safety-car recursion\<close>

lemma redirect_laps_cases:
  obtains (none) "redirect_laps sc rp g = []"
  | (redirect) result g1 g2 sc_lap g3 where
      "run_stints sc rp g = Inr (result, g1)"
      "safety_car_draw (get_safety_car_probability sc) g1 = (True, g2)"
      "random_randint (current_lap rp + 1) (total_laps rp) g2 = Inr (sc_lap, g3)"
      "sc_lap < get_pit_lap sc rp"
      "redirect_laps sc rp g = sc_lap # redirect_laps (sc\<lparr>pit_lap := Some sc_lap\<rparr>) rp g3"
proof (cases "redirect_laps sc rp g = []")
  case True
  then show thesis by (rule none)
next
  case False
  then obtain result g1 where stints: "run_stints sc rp g = Inr (result, g1)"
    by (subst (asm) redirect_laps.simps) (auto split: sum.splits)
  obtain fires g2 where
    draw: "safety_car_draw (get_safety_car_probability sc) g1 = (fires, g2)"
    by (cases "safety_car_draw (get_safety_car_probability sc) g1")
  from False stints draw have fires: "fires"
    by (cases fires) (simp_all add: redirect_laps.simps [of sc rp g])
  with False stints draw obtain sc_lap g3 where
    lap: "random_randint (current_lap rp + 1) (total_laps rp) g2 = Inr (sc_lap, g3)"
    by (auto simp: redirect_laps.simps [of sc rp g] split: sum.splits)
  from False stints draw fires lap have earlier: "sc_lap < get_pit_lap sc rp"
    by (auto simp: redirect_laps.simps [of sc rp g] split: if_splits)
  with stints draw fires lap
  have "redirect_laps sc rp g = sc_lap # redirect_laps (sc\<lparr>pit_lap := Some sc_lap\<rparr>) rp g3"
    by (simp add: redirect_laps.simps [of sc rp g])
  with stints draw fires lap earlier show thesis
    by (intro redirect) simp_all
qed

lemma get_pit_lap_forced [simp]: "get_pit_lap (sc\<lparr>pit_lap := Some l\<rparr>) rp = l"
  by (simp add: get_pit_lap_def)

lemma redirect_laps_bounds:
  "l \<in> set (redirect_laps sc rp g) \<Longrightarrow>
     current_lap rp + 1 \<le> l \<and> l < get_pit_lap sc rp \<and> l \<le> total_laps rp"
proof (induction sc rp g rule: redirect_induct)
  case (call sc rp g)
  show ?case
  proof (cases sc rp g rule: redirect_laps_cases)
    case none
    with call.prems show ?thesis by simp
  next
    case (redirect result g1 g2 sc_lap g3)
    from random_randint_range [OF redirect(3)]
    have range: "current_lap rp + 1 \<le> sc_lap" "sc_lap \<le> total_laps rp" by simp_all
    from call.prems redirect(5)
    consider "l = sc_lap" | "l \<in> set (redirect_laps (sc\<lparr>pit_lap := Some sc_lap\<rparr>) rp g3)"
      by auto
    then show ?thesis
    proof cases
      case 1
      with range redirect(4) show ?thesis by simp
    next
      case 2
      from call.IH [OF redirect(1-4) 2] redirect(4) show ?thesis by simp
    qed
  qed
qed

lemma redirect_laps_descend: "sorted_wrt (>) (redirect_laps sc rp g)"
proof (induction sc rp g rule: redirect_induct)
  case (call sc rp g)
  show ?case
  proof (cases sc rp g rule: redirect_laps_cases)
    case none
    then show ?thesis by simp
  next
    case (redirect result g1 g2 sc_lap g3)
    have "\<forall>l \<in> set (redirect_laps (sc\<lparr>pit_lap := Some sc_lap\<rparr>) rp g3). l < sc_lap"
      using redirect_laps_bounds [of _ "sc\<lparr>pit_lap := Some sc_lap\<rparr>" rp g3] by simp
    with call.IH [OF redirect(1-4)] redirect(5) show ?thesis by auto
  qed
qed

lemma redirect_laps_depth:
  "length (redirect_laps sc rp g) \<le> nat (get_pit_lap sc rp - current_lap rp - 1)"
proof (induction sc rp g rule: redirect_induct)
  case (call sc rp g)
  show ?case
  proof (cases sc rp g rule: redirect_laps_cases)
    case none
    then show ?thesis by simp
  next
    case (redirect result g1 g2 sc_lap g3)
    from random_randint_range [OF redirect(3)] have "current_lap rp + 1 \<le> sc_lap" by simp
    with call.IH [OF redirect(1-4)] redirect(4,5) show ?thesis by simp
  qed
qed

lemma redirect_laps_depth_race:
  "length (redirect_laps sc rp g) \<le> nat (total_laps rp - current_lap rp)"
proof (cases sc rp g rule: redirect_laps_cases)
  case none
  then show ?thesis by simp
next
  case (redirect result g1 g2 sc_lap g3)
  from random_randint_range [OF redirect(3)]
  have "current_lap rp + 1 \<le> sc_lap" "sc_lap \<le> total_laps rp" by simp_all
  with redirect_laps_depth [of "sc\<lparr>pit_lap := Some sc_lap\<rparr>" rp g3] redirect(5)
  show ?thesis by simp
qed

lemma evaluate_scenario_pit_lap:
  "evaluate_scenario sc rp g = Inr (r, g') \<Longrightarrow>
     pit_lap r = (if redirect_laps sc rp g = [] then pit_lap sc
                  else Some (last (redirect_laps sc rp g)))"
proof (induction sc rp g arbitrary: r g' rule: redirect_induct)
  case (call sc rp g)
  from call.prems show ?case
  proof (cases rule: evaluate_scenario_returns)
    case (no_safety_car result g1)
    from run_stints_result [OF no_safety_car(1)] no_safety_car(3,4) show ?thesis
      by (simp add: estimate_position_fields)
  next
    case (safety_car_later result g1 g2 sc_lap)
    from run_stints_result [OF safety_car_later(1)] safety_car_later(5,6) show ?thesis
      by (simp add: estimate_position_fields)
  next
    case (redirected result g1 g2 sc_lap g3 adjusted_result)
    from call.IH [OF redirected(1-5)] redirected(6,7) show ?thesis
      by simp
  qed
qed


text \<open>
  Claim C9, as amended. The safety-car re-evaluation is not single-level: a re-evaluation
  can itself be redirected to a still earlier safety-car lap. The number of nested
  re-evaluations of one call is at most \<open>pit_lap - current_lap - 1\<close> (and 0 when the pit
  lap is not after \<open>current_lap + 1\<close>), so it is at most 1 whenever the planned pit lap is
  at most \<open>current_lap + 2\<close>.
\<close>

theorem redirect_depth_bound:
  "length (redirect_laps sc rp g) \<le> nat (get_pit_lap sc rp - current_lap rp - 1)
   \<and> (get_pit_lap sc rp \<le> current_lap rp + 2 \<longrightarrow> length (redirect_laps sc rp g) \<le> 1)"
proof
  show bound: "length (redirect_laps sc rp g) \<le> nat (get_pit_lap sc rp - current_lap rp - 1)"
    by (rule redirect_laps_depth)
  show "get_pit_lap sc rp \<le> current_lap rp + 2 \<longrightarrow> length (redirect_laps sc rp g) \<le> 1"
  proof
    assume "get_pit_lap sc rp \<le> current_lap rp + 2"
    then have "nat (get_pit_lap sc rp - current_lap rp - 1) \<le> 1" by simp
    with bound show "length (redirect_laps sc rp g) \<le> 1" by (rule order_trans)
  qed
qed

theorem redirect_depth_bound_witness:
  "length (redirect_laps late_stop short_race two_safety_cars)
     \<le> nat (get_pit_lap late_stop short_race - current_lap short_race - 1)
   \<and> get_pit_lap (late_stop\<lparr>pit_lap := Some 3\<rparr>) short_race \<le> current_lap short_race + 2
   \<and> length (redirect_laps (late_stop\<lparr>pit_lap := Some 3\<rparr>) short_race two_safety_cars) \<le> 1"
  using redirect_depth_bound [of late_stop short_race two_safety_cars]
    redirect_depth_bound [of "late_stop\<lparr>pit_lap := Some 3\<rparr>" short_race two_safety_cars]
  by (simp add: short_race_def)

text \<open>
  The claim C9 as stated fails: on the example the evaluation is redirected to lap 3 and its
  re-evaluation is redirected again, to lap 2.
\<close>

theorem single_level_counterexample:
  "\<not> length (redirect_laps late_stop short_race two_safety_cars) \<le> 1"
  by (simp add: late_stop_redirects)

section \<open>Failures of the evaluation\<close>

lemma calculate_lap_time_error:
  "calculate_lap_time c age w g = Inl e \<Longrightarrow> e = KeyError c \<and> tire_compounds c = None"
  by (auto simp: calculate_lap_time_def Let_def split: option.splits prod.splits)

lemma stint_loop_error:
  "stint_loop laps c w t ls age g = Inl e \<Longrightarrow> e = KeyError c \<and> tire_compounds c = None"
proof (induction laps arbitrary: t ls age g)
  case Nil
  then show ?case by simp
next
  case (Cons l laps)
  show ?case
  proof (cases "calculate_lap_time c age w g")
    case (Inl e')
    with Cons.prems have "e' = e" by simp
    with Inl show ?thesis by (simp add: calculate_lap_time_error)
  next
    case (Inr p)
    with Cons.prems have "stint_loop laps c w (t + fst p) (ls @ [fst p]) (age + 1) (snd p) = Inl e"
      by (cases p) simp
    then show ?thesis by (rule Cons.IH)
  qed
qed

lemma simulate_stint_error:
  "simulate_stint a b c age w g = Inl e \<Longrightarrow> e = KeyError c \<and> tire_compounds c = None"
  unfolding simulate_stint_def by (rule stint_loop_error)

lemma run_stints_error:
  assumes "run_stints sc rp g = Inl e"
  shows "\<exists>c \<in> {current_compound rp, get_new_compound sc}. e = KeyError c \<and> tire_compounds c = None"
proof -
  have "\<exists>r g'. run_stints sc rp g = Inr (r, g')"
    if "tire_compounds (current_compound rp) \<noteq> None" "tire_compounds (get_new_compound sc) \<noteq> None"
    using that by (intro run_stints_known) simp_all
  show ?thesis
  proof (cases "get_pit_lap sc rp > current_lap rp")
    case True
    show ?thesis
    proof (cases "simulate_stint (current_lap rp) (get_pit_lap sc rp - 1) (current_compound rp)
                         (current_tire_age rp) (weather_condition rp) g")
      case (Inl e')
      with assms True have "e' = e" by (simp add: run_stints_def Let_def)
      with simulate_stint_error [OF Inl] show ?thesis by simp
    next
      case (Inr p)
      obtain t ls g1 where p: "p = ((t, ls), g1)" by (cases p) auto
      with assms True Inr obtain w r1 where
        "simulate_stint (get_pit_lap sc rp) (total_laps rp) (get_new_compound sc) 0 w g1 = Inl e"
        by (auto simp: run_stints_def Let_def split: if_splits sum.splits)
      from simulate_stint_error [OF this] show ?thesis by simp
    qed
  next
    case False
    with assms obtain w where
      "simulate_stint (get_pit_lap sc rp) (total_laps rp) (get_new_compound sc) 0 w g = Inl e"
      by (auto simp: run_stints_def Let_def split: if_splits sum.splits)
    from simulate_stint_error [OF this] show ?thesis by simp
  qed
qed

lemma get_forced [simp]:
  "get_new_compound (sc\<lparr>pit_lap := p\<rparr>) = get_new_compound sc"
  "get_safety_car_probability (sc\<lparr>pit_lap := p\<rparr>) = get_safety_car_probability sc"
  by (simp_all add: get_new_compound_def get_safety_car_probability_def)

lemma evaluate_scenario_error:
  "evaluate_scenario sc rp g = Inl e \<Longrightarrow>
     (e = ValueError \<and> total_laps rp \<le> current_lap rp \<and> 0 < get_safety_car_probability sc)
   \<or> (\<exists>c \<in> {current_compound rp, get_new_compound sc}.
         e = KeyError c \<and> tire_compounds c = None)"
proof (induction sc rp g rule: redirect_induct)
  case (call sc rp g)
  show ?case
  proof (cases "run_stints sc rp g")
    case (Inl e')
    with call.prems have "e' = e" by (simp add: evaluate_scenario.simps [of sc rp g])
    with run_stints_error [OF Inl] show ?thesis by simp
  next
    case (Inr p)
    obtain result g1 where stints: "run_stints sc rp g = Inr (result, g1)"
      using Inr by (cases p) simp
    obtain fires g2 where
      draw: "safety_car_draw (get_safety_car_probability sc) g1 = (fires, g2)"
      by (cases "safety_car_draw (get_safety_car_probability sc) g1")
    from call.prems stints draw have fires: "fires"
      by (cases fires) (simp_all add: evaluate_scenario.simps [of sc rp g])
    with safety_car_draw_rng [OF draw] have prob: "0 < get_safety_car_probability sc"
      by simp
    show ?thesis
    proof (cases "random_randint (current_lap rp + 1) (total_laps rp) g2")
      case (Inl e')
      with call.prems stints draw fires have "e' = e"
        by (simp add: evaluate_scenario.simps [of sc rp g])
      with Inl have "e = ValueError" "total_laps rp \<le> current_lap rp"
        by (auto simp: random_randint_def split: if_splits)
      with prob show ?thesis by simp
    next
      case (Inr q)
      obtain sc_lap g3 where
        lap: "random_randint (current_lap rp + 1) (total_laps rp) g2 = Inr (sc_lap, g3)"
        using Inr by (cases q) simp
      from call.prems stints draw fires lap have earlier: "sc_lap < get_pit_lap sc rp"
        by (auto simp: evaluate_scenario.simps [of sc rp g] split: if_splits)
      with call.prems stints draw fires lap
      have "evaluate_scenario (sc\<lparr>pit_lap := Some sc_lap\<rparr>) rp g3 = Inl e"
        by (auto simp: evaluate_scenario.simps [of sc rp g] split: sum.splits)
      from call.IH [OF stints draw [unfolded fires [THEN eqTrueI]] lap earlier this]
      show ?thesis by simp
    qed
  qed
qed

lemma evaluate_scenario_valid:
  assumes "current_lap rp < total_laps rp"
    and "tire_compounds (current_compound rp) \<noteq> None"
    and "tire_compounds (get_new_compound sc) \<noteq> None"
  shows "\<exists>r g'. evaluate_scenario sc rp g = Inr (r, g')"
proof (cases "evaluate_scenario sc rp g")
  case (Inl e)
  from evaluate_scenario_error [OF Inl] assms show ?thesis by auto
next
  case (Inr p)
  then show ?thesis by (cases p) simp
qed

text \<open>
  Claim C10. The scenario evaluation is a total function: its recursion is well-founded on
  \<open>pit_lap - current_lap\<close>. The pit laps forced by the successive re-evaluations of one
  call are strictly decreasing, each is at least \<open>current_lap + 1\<close>, before the planned pit
  lap and at most \<open>total_laps\<close>, and there are at most \<open>total_laps - current_lap\<close> of them.
  The pit lap of a returned result is the planned one when there was no re-evaluation and
  the last forced one otherwise.
\<close>

theorem redirects_well_founded:
  "sorted_wrt (>) (redirect_laps sc rp g)
   \<and> (\<forall>l \<in> set (redirect_laps sc rp g).
         current_lap rp + 1 \<le> l \<and> l < get_pit_lap sc rp \<and> l \<le> total_laps rp)
   \<and> length (redirect_laps sc rp g) \<le> nat (total_laps rp - current_lap rp)
   \<and> (\<forall>r g'. evaluate_scenario sc rp g = Inr (r, g') \<longrightarrow>
         pit_lap r = (if redirect_laps sc rp g = [] then pit_lap sc
                      else Some (last (redirect_laps sc rp g))))
   \<and> (current_lap rp < total_laps rp
        \<and> tire_compounds (current_compound rp) \<noteq> None
        \<and> tire_compounds (get_new_compound sc) \<noteq> None \<longrightarrow>
         (\<exists>r g'. evaluate_scenario sc rp g = Inr (r, g')))"
proof (intro conjI ballI allI impI)
  show "sorted_wrt (>) (redirect_laps sc rp g)"
    by (rule redirect_laps_descend)
  show "length (redirect_laps sc rp g) \<le> nat (total_laps rp - current_lap rp)"
    by (rule redirect_laps_depth_race)
next
  fix l assume "l \<in> set (redirect_laps sc rp g)"
  from redirect_laps_bounds [OF this]
  show "current_lap rp + 1 \<le> l" and "l < get_pit_lap sc rp" and "l \<le> total_laps rp"
    by simp_all
next
  fix r g' assume "evaluate_scenario sc rp g = Inr (r, g')"
  then show "pit_lap r = (if redirect_laps sc rp g = [] then pit_lap sc
                      else Some (last (redirect_laps sc rp g)))"
    by (rule evaluate_scenario_pit_lap)
next
  assume "current_lap rp < total_laps rp
        \<and> tire_compounds (current_compound rp) \<noteq> None
        \<and> tire_compounds (get_new_compound sc) \<noteq> None"
  then show "\<exists>r g'. evaluate_scenario sc rp g = Inr (r, g')"
    by (intro evaluate_scenario_valid) simp_all
qed

theorem redirects_well_founded_witness:
  "redirect_laps late_stop short_race two_safety_cars = [3, 2]
   \<and> sorted_wrt (>) [3, 2 :: int]
   \<and> current_lap short_race + 1 \<le> 2
   \<and> 3 < get_pit_lap late_stop short_race
   \<and> 3 \<le> total_laps short_race
   \<and> length [3, 2 :: int] \<le> nat (total_laps short_race - current_lap short_race)
   \<and> current_lap short_race < total_laps short_race
   \<and> tire_compounds (current_compound short_race) \<noteq> None
   \<and> tire_compounds (get_new_compound late_stop) \<noteq> None
   \<and> (\<exists>r g'. evaluate_scenario late_stop short_race two_safety_cars = Inr (r, g')
          \<and> pit_lap r = Some (last [3, 2]))"
proof -
  note inst = redirects_well_founded [of late_stop short_race two_safety_cars,
      unfolded late_stop_redirects]
  have valid: "current_lap short_race < total_laps short_race
        \<and> tire_compounds (current_compound short_race) \<noteq> None
        \<and> tire_compounds (get_new_compound late_stop) \<noteq> None"
    by (simp add: short_race_def late_stop_def get_new_compound_def tire_compounds_def)
  with inst obtain r g' where
    run: "evaluate_scenario late_stop short_race two_safety_cars = Inr (r, g')"
    by blast
  with inst have "pit_lap r = Some (last [3, 2])"
    by simp
  with inst valid run show ?thesis
    by (simp add: late_stop_redirects)
qed

section \<open>Scenario ranking\<close>

lemma foldl_min_first:
  fixes key :: "'a \<Rightarrow> real"
  shows "foldl (\<lambda>best y. if key y < key best then y else best) x xs \<in> set (x # xs)
   \<and> (\<forall>y \<in> set (x # xs). key (foldl (\<lambda>best y. if key y < key best then y else best) x xs) \<le> key y)"
proof (induction xs arbitrary: x)
  case Nil
  then show ?case by simp
next
  case (Cons a xs)
  show ?case
    using Cons.IH [of a] Cons.IH [of x] by (auto simp: not_less intro: order_trans less_imp_le)
qed

lemma foldl_max_first:
  fixes key :: "'a \<Rightarrow> real"
  shows "foldl (\<lambda>best y. if key y > key best then y else best) x xs \<in> set (x # xs)
   \<and> (\<forall>y \<in> set (x # xs). key y \<le> key (foldl (\<lambda>best y. if key y > key best then y else best) x xs))"
proof (induction xs arbitrary: x)
  case Nil
  then show ?case by simp
next
  case (Cons a xs)
  show ?case
    using Cons.IH [of a] Cons.IH [of x] by (auto simp: not_less intro: order_trans less_imp_le)
qed

lemma py_min_least:
  fixes key :: "'a \<Rightarrow> real"
  assumes "py_min key xs = Inr b"
  shows "b \<in> set xs" and "\<forall>y \<in> set xs. key b \<le> key y" and "key b = Min (key ` set xs)"
proof -
  from assms obtain x rest where xs: "xs = x # rest"
    and b: "b = foldl (\<lambda>best y. if key y < key best then y else best) x rest"
    by (auto simp: py_min_def split: list.splits)
  from foldl_min_first [of key x rest] xs b
  show mem: "b \<in> set xs" and least: "\<forall>y \<in> set xs. key b \<le> key y"
    by simp_all
  show "key b = Min (key ` set xs)"
  proof (rule Min_eqI [symmetric])
    show "finite (key ` set xs)" by simp
    show "key b \<in> key ` set xs" using mem by simp
    fix v assume "v \<in> key ` set xs"
    with least show "key b \<le> v" by auto
  qed
qed

lemma py_max_greatest:
  fixes key :: "'a \<Rightarrow> real"
  assumes "py_max key xs = Inr b"
  shows "b \<in> set xs" and "\<forall>y \<in> set xs. key y \<le> key b" and "key b = Max (key ` set xs)"
proof -
  from assms obtain x rest where xs: "xs = x # rest"
    and b: "b = foldl (\<lambda>best y. if key y > key best then y else best) x rest"
    by (auto simp: py_max_def split: list.splits)
  from foldl_max_first [of key x rest] xs b
  show mem: "b \<in> set xs" and greatest: "\<forall>y \<in> set xs. key y \<le> key b"
    by simp_all
  show "key b = Max (key ` set xs)"
  proof (rule Max_eqI [symmetric])
    show "finite (key ` set xs)" by simp
    show "key b \<in> key ` set xs" using mem by simp
    fix v assume "v \<in> key ` set xs"
    with greatest show "v \<le> key b" by auto
  qed
qed

lemma evaluate_all_results:
  "evaluate_all scs rp acc g = Inr (out, g') \<Longrightarrow>
     \<exists>new. out = acc @ new
       \<and> list_all2 (\<lambda>sc r. \<exists>g1 g2. evaluate_scenario sc rp g1 = Inr (r, g2)) scs new"
proof (induction scs arbitrary: acc g)
  case Nil
  then show ?case by simp
next
  case (Cons sc scs)
  from Cons.prems obtain r g1 where
    first: "evaluate_scenario sc rp g = Inr (r, g1)" and
    rest: "evaluate_all scs rp (acc @ [r]) g1 = Inr (out, g')"
    by (auto split: sum.splits)
  from Cons.IH [OF rest] obtain new where
    "out = (acc @ [r]) @ new"
    "list_all2 (\<lambda>sc r. \<exists>g1 g2. evaluate_scenario sc rp g1 = Inr (r, g2)) scs new"
    by blast
  with first show ?case
    by (intro exI [of _ "r # new"]) auto
qed

text \<open>
  Claim C6. When the ranking returns, its results are the evaluations, one per scenario and
  in order, of the supplied scenarios, or of the four documented default scenarios when and
  only when the supplied list is empty; the best scenario is one of the results and has the
  least total race time; the time delta is the greatest total race time minus the least, so
  it is not negative; and the race position delta is the position delta of the best
  scenario.
\<close>

theorem ranking:
  assumes run: "simulate_scenarios kwargs g = Inr (out, g')"
  shows "list_all2
           (\<lambda>sc r. \<exists>g1 g2. evaluate_scenario sc (race_params.truncate kwargs) g1 = Inr (r, g2))
           (used_scenarios kwargs) (scenarios out)
       \<and> best_scenario out \<in> set (scenarios out)
       \<and> total_race_time (best_scenario out) = Min (total_race_time ` set (scenarios out))
       \<and> time_delta out = Max (total_race_time ` set (scenarios out))
                           - Min (total_race_time ` set (scenarios out))
       \<and> 0 \<le> time_delta out
       \<and> race_position_delta out = position_delta (best_scenario out)"
proof -
  have used: "used_scenarios kwargs =
      (if pit_scenarios kwargs = [] then default_scenarios kwargs else pit_scenarios kwargs)"
    by (simp add: used_scenarios_def default_scenarios_def)
  from run obtain results best worst where
    all: "evaluate_all (used_scenarios kwargs) (race_params.truncate kwargs) [] g
            = Inr (results, g')"
    and best: "py_min total_race_time results = Inr best"
    and worst: "py_max total_race_time results = Inr worst"
    and out: "out = \<lparr>scenarios = results, best_scenario = best,
                      race_position_delta = position_delta best,
                      time_delta = total_race_time worst - total_race_time best\<rparr>"
    by (auto simp: simulate_scenarios_def Let_def used split: sum.splits)
  from evaluate_all_results [OF all]
  have each: "list_all2
           (\<lambda>sc r. \<exists>g1 g2. evaluate_scenario sc (race_params.truncate kwargs) g1 = Inr (r, g2))
           (used_scenarios kwargs) results"
    by simp
  note b = py_min_least [OF best] and w = py_max_greatest [OF worst]
  from b(1) w(2) have "total_race_time best \<le> total_race_time worst" by blast
  with each b w out show ?thesis by simp
qed


lemma default_request_run:
  "\<exists>out. simulate_scenarios default_request (sconst 0) = Inr (out, sconst 0)
      \<and> map name (scenarios out) =
            [Some ''Stay out'', Some ''Pit now'', Some ''Pit in 3 laps'', Some ''Pit in 5 laps'']
      \<and> map total_race_time (scenarios out) = [449, 475.7, 472.67, 449]
      \<and> name (best_scenario out) = Some ''Stay out''
      \<and> time_delta out = 26.7"
  by (simp add: example_defs evaluate_scenario.simps simulate_scenarios_def default_request_def
      default_scenarios_def race_params.truncate_def py_min_def py_max_def)

theorem ranking_witness:
  "\<exists>out. simulate_scenarios default_request (sconst 0) = Inr (out, sconst 0)
      \<and> map name (scenarios out) =
            [Some ''Stay out'', Some ''Pit now'', Some ''Pit in 3 laps'', Some ''Pit in 5 laps'']
      \<and> map total_race_time (scenarios out) = [449, 475.7, 472.67, 449]
      \<and> name (best_scenario out) = Some ''Stay out''
      \<and> length (scenarios out) = length (used_scenarios default_request)
      \<and> best_scenario out \<in> set (scenarios out)
      \<and> total_race_time (best_scenario out) = Min (total_race_time ` set (scenarios out))
      \<and> time_delta out = Max (total_race_time ` set (scenarios out))
                          - Min (total_race_time ` set (scenarios out))
      \<and> 0 \<le> time_delta out
      \<and> race_position_delta out = position_delta (best_scenario out)"
proof -
  from default_request_run obtain out where
    all: "simulate_scenarios default_request (sconst 0) = Inr (out, sconst 0)
      \<and> map name (scenarios out) =
            [Some ''Stay out'', Some ''Pit now'', Some ''Pit in 3 laps'', Some ''Pit in 5 laps'']
      \<and> map total_race_time (scenarios out) = [449, 475.7, 472.67, 449]
      \<and> name (best_scenario out) = Some ''Stay out''
      \<and> time_delta out = 26.7" ..
  then have run: "simulate_scenarios default_request (sconst 0) = Inr (out, sconst 0)"
    by (rule conjunct1)
  from all have shown: "map name (scenarios out) =
            [Some ''Stay out'', Some ''Pit now'', Some ''Pit in 3 laps'', Some ''Pit in 5 laps'']
      \<and> map total_race_time (scenarios out) = [449, 475.7, 472.67, 449]
      \<and> name (best_scenario out) = Some ''Stay out''"
    by (elim conjE) (intro conjI)
  note ranked = ranking [OF run]
  from ranked [THEN conjunct1]
  have "length (used_scenarios default_request) = length (scenarios out)"
    by (rule list_all2_lengthD)
  with run shown ranked show ?thesis
    by (intro exI [of _ out]) simp
qed

section \<open>Failures at the endpoint\<close>

text \<open>
  Claim C8. The claim is that the evaluation of a valid input signals no failure and that the
  draw of the safety-car lap never raises, also when the current lap is the last lap. The
  code breaks it: on the last lap of the five-lap race, with the stop on that lap and a safety
  car certain to appear, every constraint of the interface holds, the range
  \<open>(current_lap, total_laps]\<close> of the draw is empty, and the evaluation ends with
  \<open>ValueError\<close> on every randomness source.
\<close>

theorem last_lap_safety_car_raises:
  "1 \<le> current_lap last_lap_race
   \<and> current_lap last_lap_race \<le> total_laps last_lap_race
   \<and> 1 \<le> current_position last_lap_race
   \<and> 0 \<le> current_tire_age last_lap_race
   \<and> tire_compounds (current_compound last_lap_race) \<noteq> None
   \<and> tire_compounds (get_new_compound last_lap_stop) \<noteq> None
   \<and> weather_condition last_lap_race \<in> {''dry'', ''mixed'', ''wet''}
   \<and> current_lap last_lap_race \<le> get_pit_lap last_lap_stop last_lap_race
   \<and> 0 \<le> get_safety_car_probability last_lap_stop
   \<and> get_safety_car_probability last_lap_stop \<le> 1
   \<and> evaluate_scenario last_lap_stop last_lap_race g = Inl ValueError"
  by (simp add: example_defs evaluate_scenario.simps short_race_def late_stop_def
      last_lap_race_def last_lap_stop_def)

lemma outcome_simps [simp]:
  "outcome (Inl e) = Inl e"
  "outcome (Inr (v, g)) = Inr g"
  by (simp_all add: outcome_def)

lemma outcome_eq_Inl [simp]: "outcome res = Inl e \<longleftrightarrow> res = Inl e"
  by (cases res) auto

lemma outcome_eq_Inr: "outcome res = Inr g \<longleftrightarrow> (\<exists>v. res = Inr (v, g))"
  by (cases res) auto














end
